theory Spec2Isabelle
  imports Complex_Main
begin

section \<open>Python values used by the amortization engine\<close>

text \<open>
  The engine is the function \<open>calculate_stepped_amortization_schedule\<close> of the notebook
  \<open>stepped_amortization_schedule\<close>. Its numbers are Python floats and ints; they are modelled
  as exact reals and unbounded integers, so every statement below is about the algorithm
  in exact arithmetic. The two exceptions the function can raise are values of \<open>error\<close>.
\<close>

datatype error = IndexError | OverflowError

text \<open>List subscription \<open>xs[i]\<close>: a negative index counts from the end, anything outside
  the list raises \<open>IndexError\<close>.\<close>

definition py_index :: "'a list \<Rightarrow> int \<Rightarrow> error + 'a" where
  "py_index xs i =
     (if 0 \<le> i \<and> i < int (length xs) then Inr (xs ! nat i)
      else if i < 0 \<and> - int (length xs) \<le> i then Inr (xs ! nat (int (length xs) + i))
      else Inl IndexError)"

subsection \<open>The datetime library: proleptic Gregorian ordinals\<close>

text \<open>
  \<open>start_date\<close> is parsed by \<open>datetime.strptime(start_date, "%Y-%m-%d")\<close>, which gives a
  datetime at midnight; the model starts from the parsed date. The functions below follow
  the standard library's \<open>_is_leap\<close>, \<open>_days_before_year\<close>, \<open>_days_before_month\<close>,
  \<open>_ymd2ord\<close> and \<open>_ord2ymd\<close>.
\<close>

record datetime =
  dt_year :: int
  dt_month :: int
  dt_day :: int

definition is_leap :: "int \<Rightarrow> bool" where
  "is_leap y = (y mod 4 = 0 \<and> (y mod 100 \<noteq> 0 \<or> y mod 400 = 0))"

definition days_before_year :: "int \<Rightarrow> int" where
  "days_before_year y = (y - 1) * 365 + (y - 1) div 4 - (y - 1) div 100 + (y - 1) div 400"

definition DAYS_IN_MONTH :: "int list" where
  "DAYS_IN_MONTH = [-1, 31, 28, 31, 30, 31, 30, 31, 31, 30, 31, 30, 31]"

definition DAYS_BEFORE_MONTH :: "int list" where
  "DAYS_BEFORE_MONTH = [-1, 0, 31, 59, 90, 120, 151, 181, 212, 243, 273, 304, 334]"

definition days_before_month :: "int \<Rightarrow> int \<Rightarrow> int" where
  "days_before_month y m = DAYS_BEFORE_MONTH ! nat m + (if 2 < m \<and> is_leap y then 1 else 0)"

definition ymd2ord :: "int \<Rightarrow> int \<Rightarrow> int \<Rightarrow> int" where
  "ymd2ord y m d = days_before_year y + days_before_month y m + d"

definition ord2ymd :: "int \<Rightarrow> datetime" where
  "ord2ymd ordinal =
     (let n = ordinal - 1;
          n400 = n div 146097; na = n mod 146097;
          n100 = na div 36524; nb = na mod 36524;
          n4 = nb div 1461; nc = nb mod 1461;
          n1 = nc div 365; nd = nc mod 365;
          y = n400 * 400 + 1 + n100 * 100 + n4 * 4 + n1
      in if n1 = 4 \<or> n100 = 4 then \<lparr>dt_year = y - 1, dt_month = 12, dt_day = 31\<rparr>
         else
           let leapyear = (n1 = 3 \<and> (n4 \<noteq> 24 \<or> n100 = 3));
               m = (nd + 50) div 32;
               preceding = DAYS_BEFORE_MONTH ! nat m + (if 2 < m \<and> leapyear then 1 else 0)
           in if preceding > nd
              then \<lparr>dt_year = y, dt_month = m - 1,
                    dt_day = nd - (preceding - (DAYS_IN_MONTH ! nat (m - 1)
                                     + (if m - 1 = 2 \<and> leapyear then 1 else 0))) + 1\<rparr>
              else \<lparr>dt_year = y, dt_month = m, dt_day = nd - preceding + 1\<rparr>)"

definition toordinal :: "datetime \<Rightarrow> int" where
  "toordinal d = ymd2ord (dt_year d) (dt_month d) (dt_day d)"

definition MAXORDINAL :: int where
  "MAXORDINAL = 3652059"

text \<open>\<open>d + timedelta(days=k)\<close>: the result must lie between 0001-01-01 and 9999-12-31.\<close>

definition add_days :: "datetime \<Rightarrow> int \<Rightarrow> error + datetime" where
  "add_days d k =
     (if 0 < toordinal d + k \<and> toordinal d + k \<le> MAXORDINAL
      then Inr (ord2ymd (toordinal d + k)) else Inl OverflowError)"

text \<open>\<open>(d - d.replace(day=1)).days + 1\<close>, the value stored under the key \<open>'days'\<close>.\<close>

definition days_since_month_start :: "datetime \<Rightarrow> int" where
  "days_since_month_start d = toordinal d - toordinal (d\<lparr>dt_day := 1\<rparr>) + 1"

section \<open>The amortization engine\<close>

text \<open>The eight parameters of \<open>calculate_stepped_amortization_schedule\<close>.\<close>

record loan =
  principal :: real
  annual_interest_rate :: real
  years :: int
  monthly_days :: "int list"
  start_date :: datetime
  balloon_payment :: real
  bill_type :: real
  annual_installment_increases :: "real list"

text \<open>One row of the schedule: the dictionary appended in the loop and at the balloon
  step, one field per key (\<open>'date'\<close>, \<open>'days'\<close>, \<open>'day'\<close>, \<open>'base rate'\<close>, \<open>'margin'\<close>,
  \<open>'all rate'\<close>, \<open>'interest'\<close>, \<open>'principal'\<close>, \<open>'bill type'\<close>, \<open>'balance'\<close>).\<close>

record entry =
  e_date :: datetime
  e_days :: int
  e_day :: datetime
  e_base_rate :: real
  e_margin :: real
  e_all_rate :: real
  e_interest :: real
  e_principal :: real
  e_bill_type :: real
  e_balance :: real

text \<open>The local variables the loops update.\<close>

record state =
  schedule :: "entry list"
  remaining_balance :: real
  payment_number :: int
  payment_date :: datetime
  monthly_installment :: real

definition monthly_interest_rates :: "loan \<Rightarrow> real list" where
  "monthly_interest_rates p =
     map (\<lambda>days. (annual_interest_rate p / 100) * (real_of_int days / 365)) (monthly_days p)"

definition row :: "loan \<Rightarrow> state \<Rightarrow> real \<Rightarrow> real \<Rightarrow> entry" where
  "row p st interest_payment bal =
     \<lparr>e_date = payment_date st,
      e_days = days_since_month_start (payment_date st),
      e_day = payment_date st,
      e_base_rate = annual_interest_rate p,
      e_margin = 0,
      e_all_rate = annual_interest_rate p,
      e_interest = interest_payment,
      e_principal = 0,
      e_bill_type = monthly_installment st,
      e_balance = bal\<rparr>"

text \<open>The body of the inner loop after its two \<open>break\<close> tests.\<close>

definition pay_period :: "loan \<Rightarrow> state \<Rightarrow> error + state" where
  "pay_period p st =
     (case py_index (monthly_interest_rates p) (payment_number st - 1) of
        Inl e \<Rightarrow> Inl e
      | Inr r \<Rightarrow>
          let interest_payment = remaining_balance st * r;
              principal_payment =
                (if monthly_installment st - interest_payment > remaining_balance st
                 then remaining_balance st
                 else monthly_installment st - interest_payment)
          in (case add_days (payment_date st) 30 of
                Inl e \<Rightarrow> Inl e
              | Inr d \<Rightarrow>
                  Inr \<lparr>schedule = schedule st
                          @ [row p st interest_payment (remaining_balance st - principal_payment)],
                       remaining_balance = remaining_balance st - principal_payment,
                       payment_number = payment_number st + 1,
                       payment_date = d,
                       monthly_installment = monthly_installment st\<rparr>))"

text \<open>\<open>for month in range(1, 13)\<close>: the first argument counts the iterations left.\<close>

fun month_loop :: "nat \<Rightarrow> loan \<Rightarrow> state \<Rightarrow> error + state" where
  "month_loop 0 p st = Inr st"
| "month_loop (Suc k) p st =
     (if payment_number st > int (length (monthly_days p)) then Inr st
      else if remaining_balance st \<le> balloon_payment p then Inr st
      else (case pay_period p st of
              Inl e \<Rightarrow> Inl e
            | Inr st' \<Rightarrow> month_loop k p st'))"

text \<open>The annual increase applied after the inner loop of year \<open>y\<close>.\<close>

definition step_up :: "loan \<Rightarrow> int \<Rightarrow> state \<Rightarrow> error + state" where
  "step_up p y st =
     (if y \<le> int (length (annual_installment_increases p))
      then (case py_index (annual_installment_increases p) (y - 1) of
              Inl e \<Rightarrow> Inl e
            | Inr increase_percentage \<Rightarrow>
                Inr (st\<lparr>monthly_installment :=
                           monthly_installment st * (1 + increase_percentage / 100)\<rparr>))
      else Inr st)"

text \<open>\<open>for year in range(1, years + 1)\<close>: the list holds the years still to run.\<close>

fun year_loop :: "int list \<Rightarrow> loan \<Rightarrow> state \<Rightarrow> error + state" where
  "year_loop [] p st = Inr st"
| "year_loop (y # ys) p st =
     (case month_loop 12 p st of
        Inl e \<Rightarrow> Inl e
      | Inr st' \<Rightarrow>
          (case step_up p y st' of
             Inl e \<Rightarrow> Inl e
           | Inr st'' \<Rightarrow> year_loop ys p st''))"

definition initial_state :: "loan \<Rightarrow> datetime \<Rightarrow> state" where
  "initial_state p d =
     \<lparr>schedule = [], remaining_balance = principal p, payment_number = 1,
      payment_date = d, monthly_installment = bill_type p\<rparr>"

text \<open>The state when both loops have finished; its \<open>schedule\<close> holds the regular rows.\<close>

definition regular_amortization :: "loan \<Rightarrow> error + state" where
  "regular_amortization p =
     (case add_days (start_date p) 30 of
        Inl e \<Rightarrow> Inl e
      | Inr d \<Rightarrow> year_loop [1..years p] p (initial_state p d))"

text \<open>The balloon step after the loops.\<close>

definition balloon_step :: "loan \<Rightarrow> state \<Rightarrow> error + entry list" where
  "balloon_step p st =
     (if remaining_balance st > 0
      then (case py_index (monthly_interest_rates p) (payment_number st - 1) of
              Inl e \<Rightarrow> Inl e
            | Inr r \<Rightarrow> Inr (schedule st @ [row p st (remaining_balance st * r) 0]))
      else Inr (schedule st))"

definition calculate_stepped_amortization_schedule :: "loan \<Rightarrow> error + entry list" where
  "calculate_stepped_amortization_schedule p =
     (case regular_amortization p of
        Inl e \<Rightarrow> Inl e
      | Inr st \<Rightarrow> balloon_step p st)"


section \<open>Notions used to state the properties\<close>

text \<open>The preconditions the specification places on a loan. The function itself tests
  none of them; they only appear as hypotheses and in the inputs of the examples.\<close>

definition valid_loan :: "loan \<Rightarrow> bool" where
  "valid_loan p \<longleftrightarrow>
     0 < principal p \<and> monthly_days p \<noteq> [] \<and> list_all (\<lambda>d. 0 < d) (monthly_days p) \<and>
     0 \<le> annual_interest_rate p \<and> 0 < bill_type p \<and> 0 < years p \<and> 0 \<le> balloon_payment p"

text \<open>The rate of the period with 0-based index \<open>k\<close>: the element \<open>k\<close> of
  \<open>monthly_interest_rates\<close> when \<open>k\<close> is in range.\<close>

definition period_rate :: "loan \<Rightarrow> nat \<Rightarrow> real" where
  "period_rate p k = (annual_interest_rate p / 100) * (real_of_int (monthly_days p ! k) / 365)"

text \<open>The balance outstanding when row \<open>k\<close> of a schedule is computed: the loan's
  principal for the first row, the balance recorded by the row before otherwise.\<close>

definition balance_before :: "loan \<Rightarrow> entry list \<Rightarrow> nat \<Rightarrow> real" where
  "balance_before p rows k = (if k = 0 then principal p else e_balance (rows ! (k - 1)))"

text \<open>The initial installment with the first \<open>j\<close> annual increases compounded; an
  increase beyond the end of \<open>annual_installment_increases\<close> changes nothing.\<close>

definition installment_after :: "loan \<Rightarrow> nat \<Rightarrow> real" where
  "installment_after p j =
     bill_type p * prod_list (map (\<lambda>i. 1 + i / 100) (take j (annual_installment_increases p)))"

text \<open>Both \<open>break\<close> tests of the inner loop, as one condition on the state.\<close>

definition stops :: "loan \<Rightarrow> state \<Rightarrow> bool" where
  "stops p st \<longleftrightarrow>
     payment_number st > int (length (monthly_days p)) \<or> remaining_balance st \<le> balloon_payment p"

text \<open>What holds of row \<open>k\<close> of the regular rows.\<close>

definition row_ok :: "loan \<Rightarrow> entry list \<Rightarrow> nat \<Rightarrow> bool" where
  "row_ok p rows k \<longleftrightarrow>
     e_interest (rows ! k) = balance_before p rows k * period_rate p k \<and>
     0 \<le> e_balance (rows ! k) \<and>
     (0 \<le> balance_before p rows k \<and> e_interest (rows ! k) \<le> e_bill_type (rows ! k)
        \<longrightarrow> e_balance (rows ! k) \<le> balance_before p rows k)"

text \<open>The invariant of both loops on the rows, the balance and the payment number.\<close>

definition rows_inv :: "loan \<Rightarrow> state \<Rightarrow> bool" where
  "rows_inv p st \<longleftrightarrow>
     payment_number st = int (length (schedule st)) + 1 \<and>
     length (schedule st) \<le> length (monthly_days p) \<and>
     remaining_balance st = balance_before p (schedule st) (length (schedule st)) \<and>
     (\<forall>k < length (schedule st). row_ok p (schedule st) k) \<and>
     (\<forall>e \<in> set (schedule st). e_days e = dt_day (e_date e))"

text \<open>The invariant of the outer loop once \<open>j\<close> years have run.\<close>

definition year_inv :: "loan \<Rightarrow> nat \<Rightarrow> state \<Rightarrow> bool" where
  "year_inv p j st \<longleftrightarrow>
     length (schedule st) \<le> 12 * j \<and>
     (length (schedule st) < 12 * j \<longrightarrow> stops p st) \<and>
     monthly_installment st = installment_after p j \<and>
     (\<forall>k < length (schedule st). e_bill_type (schedule st ! k) = installment_after p (k div 12))"

section \<open>Concrete loans\<close>

text \<open>Inputs on which the function is run below. All start on 2026-06-15.\<close>

definition june_15 :: datetime where
  "june_15 = \<lparr>dt_year = 2026, dt_month = 6, dt_day = 15\<rparr>"

text \<open>Two periods bring the balance under the threshold; a third day count is left.\<close>

definition loan_three_periods :: loan where
  "loan_three_periods =
     \<lparr>principal = 1000, annual_interest_rate = 12, years = 1, monthly_days = [30, 31, 30],
      start_date = june_15, balloon_payment = 850, bill_type = 100,
      annual_installment_increases = []\<rparr>"

text \<open>One period of 30 days, then a balloon period of 60 days.\<close>

definition loan_30_60 :: loan where
  "loan_30_60 =
     \<lparr>principal = 1000, annual_interest_rate = 36.5, years = 1, monthly_days = [30, 60],
      start_date = june_15, balloon_payment = 950, bill_type = 130,
      annual_installment_increases = []\<rparr>"

text \<open>Five day counts for a term of eight years.\<close>

definition loan_five_counts :: loan where
  "loan_five_counts =
     \<lparr>principal = 1000, annual_interest_rate = 0, years = 8, monthly_days = [30, 31, 30, 31, 30],
      start_date = june_15, balloon_payment = 0, bill_type = 100,
      annual_installment_increases = []\<rparr>"

definition loan_31_28_31 :: loan where
  "loan_31_28_31 =
     \<lparr>principal = 5000, annual_interest_rate = 7.3, years = 2, monthly_days = [31, 28, 31],
      start_date = june_15, balloon_payment = 4000, bill_type = 600,
      annual_installment_increases = [5]\<rparr>"

text \<open>A single day count and a balance that one installment does not repay.\<close>

definition loan_one_count :: loan where
  "loan_one_count =
     \<lparr>principal = 1000, annual_interest_rate = 12, years = 1, monthly_days = [30],
      start_date = june_15, balloon_payment = 0, bill_type = 100,
      annual_installment_increases = []\<rparr>"

text \<open>Loans with a principal that is not positive.\<close>

definition loan_zero_principal :: loan where
  "loan_zero_principal =
     \<lparr>principal = 0, annual_interest_rate = 12, years = 1, monthly_days = [30, 31],
      start_date = june_15, balloon_payment = 0, bill_type = 100,
      annual_installment_increases = []\<rparr>"

definition loan_negative_principal :: loan where
  "loan_negative_principal =
     \<lparr>principal = - 250, annual_interest_rate = 12, years = 2, monthly_days = [30, 31],
      start_date = june_15, balloon_payment = 10, bill_type = 100,
      annual_installment_increases = [5, 5]\<rparr>"

definition loan_two_periods :: loan where
  "loan_two_periods =
     \<lparr>principal = 1000, annual_interest_rate = 0, years = 1, monthly_days = [30, 30],
      start_date = june_15, balloon_payment = 950, bill_type = 100,
      annual_installment_increases = []\<rparr>"

definition loan_days_example :: loan where
  "loan_days_example =
     \<lparr>principal = 1000, annual_interest_rate = 0, years = 1, monthly_days = [30, 33],
      start_date = june_15, balloon_payment = 900, bill_type = 100,
      annual_installment_increases = []\<rparr>"

text \<open>A year of 365 days, then two years at once, then a single day: the interest of the
  second period exceeds the installment.\<close>

definition loan_growing :: loan where
  "loan_growing =
     \<lparr>principal = 4, annual_interest_rate = 100, years = 1, monthly_days = [365, 730, 1],
      start_date = june_15, balloon_payment = 0, bill_type = 5,
      annual_installment_increases = []\<rparr>"

definition loan_shrinking :: loan where
  "loan_shrinking =
     \<lparr>principal = 1000, annual_interest_rate = 36.5, years = 1, monthly_days = [30, 30, 30, 30],
      start_date = june_15, balloon_payment = 700, bill_type = 130,
      annual_installment_increases = []\<rparr>"

text \<open>Fourteen periods of 30 days at rate 0: the thirteenth row falls in the second year.\<close>

definition loan_two_years :: loan where
  "loan_two_years =
     \<lparr>principal = 20000, annual_interest_rate = 0, years = 2,
      monthly_days = [30, 30, 30, 30, 30, 30, 30, 30, 30, 30, 30, 30, 30, 30],
      start_date = june_15, balloon_payment = 7000, bill_type = 1000,
      annual_installment_increases = [5]\<rparr>"

text \<open>A threshold above the principal, three years, two annual increases.\<close>

definition loan_high_threshold :: loan where
  "loan_high_threshold =
     \<lparr>principal = 1000, annual_interest_rate = 36.5, years = 3, monthly_days = [30, 31],
      start_date = june_15, balloon_payment = 2000, bill_type = 1000,
      annual_installment_increases = [5, 10]\<rparr>"

text \<open>Four day counts of different lengths, all consumed by regular rows.\<close>

definition loan_uneven_counts :: loan where
  "loan_uneven_counts =
     \<lparr>principal = 5000, annual_interest_rate = 7.3, years = 1, monthly_days = [31, 28, 31, 30],
      start_date = june_15, balloon_payment = 3000, bill_type = 600,
      annual_installment_increases = []\<rparr>"

section \<open>Basic facts\<close>

lemma py_index_in_range:
  "0 \<le> i \<Longrightarrow> i < int (length xs) \<Longrightarrow> py_index xs i = Inr (xs ! nat i)"
  by (simp add: py_index_def)

lemma py_index_at_length: "py_index xs (int (length xs)) = Inl IndexError"
  by (simp add: py_index_def)

lemma length_monthly_interest_rates:
  "length (monthly_interest_rates p) = length (monthly_days p)"
  by (simp add: monthly_interest_rates_def)

lemma monthly_interest_rates_nth:
  "k < length (monthly_days p) \<Longrightarrow> monthly_interest_rates p ! k = period_rate p k"
  by (simp add: monthly_interest_rates_def period_rate_def)

lemma days_since_month_start_eq: "days_since_month_start d = dt_day d"
  by (simp add: days_since_month_start_def toordinal_def ymd2ord_def)

lemma balance_before_append:
  "k \<le> length rows \<Longrightarrow> balance_before p (rows @ ys) k = balance_before p rows k"
  by (auto simp add: balance_before_def nth_append)

lemma row_ok_append:
  "k < length rows \<Longrightarrow> row_ok p (rows @ ys) k = row_ok p rows k"
  by (simp add: row_ok_def nth_append balance_before_append)

section \<open>The loops\<close>

lemma pay_period_result:
  assumes "pay_period p st = Inr st'" and "rows_inv p st"
    and "\<not> payment_number st > int (length (monthly_days p))"
  shows "\<exists>d b. add_days (payment_date st) 30 = Inr d \<and>
           0 \<le> b \<and>
           (0 \<le> remaining_balance st \<and>
            remaining_balance st * period_rate p (length (schedule st)) \<le> monthly_installment st
              \<longrightarrow> b \<le> remaining_balance st) \<and>
           st' = \<lparr>schedule = schedule st
                      @ [row p st (remaining_balance st * period_rate p (length (schedule st))) b],
                  remaining_balance = b,
                  payment_number = payment_number st + 1,
                  payment_date = d,
                  monthly_installment = monthly_installment st\<rparr>"
proof -
  from assms(2) have pn: "payment_number st = int (length (schedule st)) + 1"
    by (simp add: rows_inv_def)
  with assms(3) have lt: "length (schedule st) < length (monthly_days p)" by simp
  have idx: "py_index (monthly_interest_rates p) (payment_number st - 1)
             = Inr (period_rate p (length (schedule st)))"
    using lt pn
    by (simp add: py_index_in_range length_monthly_interest_rates monthly_interest_rates_nth)
  from assms(1) show ?thesis
    unfolding pay_period_def idx
    by (auto simp add: Let_def split: sum.splits if_splits)
qed

lemma pay_period_rows_inv:
  assumes "pay_period p st = Inr st'" and "rows_inv p st"
    and "\<not> payment_number st > int (length (monthly_days p))"
  shows "rows_inv p st'"
proof -
  from pay_period_result [OF assms] obtain d b where
    b0: "0 \<le> b" and
    bm: "0 \<le> remaining_balance st \<and>
         remaining_balance st * period_rate p (length (schedule st)) \<le> monthly_installment st
              \<longrightarrow> b \<le> remaining_balance st" and
    st': "st' = \<lparr>schedule = schedule st
                      @ [row p st (remaining_balance st * period_rate p (length (schedule st))) b],
                  remaining_balance = b,
                  payment_number = payment_number st + 1,
                  payment_date = d,
                  monthly_installment = monthly_installment st\<rparr>"
    by blast
  let ?e = "row p st (remaining_balance st * period_rate p (length (schedule st))) b"
  let ?n = "length (schedule st)"
  from assms(2) have pn: "payment_number st = int ?n + 1"
    and bal: "remaining_balance st = balance_before p (schedule st) ?n"
    and old: "\<forall>k < ?n. row_ok p (schedule st) k"
    and days: "\<forall>e \<in> set (schedule st). e_days e = dt_day (e_date e)"
    by (simp_all add: rows_inv_def)
  from pn assms(3) have lt: "?n < length (monthly_days p)" by simp
  have new: "row_ok p (schedule st @ [?e]) ?n"
    using b0 bm bal
    by (simp add: row_ok_def balance_before_append row_def)
  have all: "\<forall>k < Suc ?n. row_ok p (schedule st @ [?e]) k"
  proof (intro allI impI)
    fix k assume "k < Suc ?n"
    then consider "k < ?n" | "k = ?n" by linarith
    then show "row_ok p (schedule st @ [?e]) k"
    proof cases
      case 1 then show ?thesis using old by (simp add: row_ok_append)
    next
      case 2 then show ?thesis using new by simp
    qed
  qed
  have e_days: "e_days ?e = dt_day (e_date ?e)"
    by (simp add: row_def days_since_month_start_eq)
  show ?thesis
    unfolding rows_inv_def st'
    using pn lt all days e_days
    by (simp add: balance_before_def row_def)
qed


lemma rows_inv_installment: "rows_inv p (st\<lparr>monthly_installment := m\<rparr>) = rows_inv p st"
  by (simp add: rows_inv_def)

lemma stops_installment: "stops p (st\<lparr>monthly_installment := m\<rparr>) = stops p st"
  by (simp add: stops_def)

lemma month_loop_stops: "stops p st \<Longrightarrow> month_loop k p st = Inr st"
  by (cases k) (auto simp add: stops_def)

lemma month_loop_step:
  assumes "month_loop (Suc k) p st = Inr st'" and "\<not> stops p st"
  obtains st1 where "pay_period p st = Inr st1" and "month_loop k p st1 = Inr st'"
  using assms by (auto simp add: stops_def split: sum.splits)

lemma month_loop_rows_inv:
  "month_loop k p st = Inr st' \<Longrightarrow> rows_inv p st \<Longrightarrow> rows_inv p st'"
proof (induction k arbitrary: st)
  case 0
  then show ?case by simp
next
  case (Suc k)
  show ?case
  proof (cases "stops p st")
    case True
    then have "month_loop (Suc k) p st = Inr st" by (rule month_loop_stops)
    with Suc.prems show ?thesis by (simp del: month_loop.simps)
  next
    case False
    from Suc.prems(1) False obtain st1
      where pp: "pay_period p st = Inr st1" and rest: "month_loop k p st1 = Inr st'"
      by (rule month_loop_step)
    from False have "\<not> payment_number st > int (length (monthly_days p))"
      by (simp add: stops_def)
    with pp Suc.prems(2) have "rows_inv p st1" by (rule pay_period_rows_inv)
    with rest show ?thesis by (rule Suc.IH)
  qed
qed

lemma month_loop_new_rows:
  "month_loop k p st = Inr st' \<Longrightarrow> rows_inv p st \<Longrightarrow>
     \<exists>new. schedule st' = schedule st @ new \<and> length new \<le> k \<and>
           (length new < k \<longrightarrow> stops p st') \<and>
           (\<forall>e \<in> set new. e_bill_type e = monthly_installment st) \<and>
           monthly_installment st' = monthly_installment st"
proof (induction k arbitrary: st)
  case 0
  then show ?case by simp
next
  case (Suc k)
  show ?case
  proof (cases "stops p st")
    case True
    then have "month_loop (Suc k) p st = Inr st" by (rule month_loop_stops)
    with Suc.prems have "st' = st" by (simp del: month_loop.simps)
    with True show ?thesis by simp
  next
    case False
    from Suc.prems(1) False obtain st1
      where pp: "pay_period p st = Inr st1" and rest: "month_loop k p st1 = Inr st'"
      by (rule month_loop_step)
    from False have guard: "\<not> payment_number st > int (length (monthly_days p))"
      by (simp add: stops_def)
    from pay_period_result [OF pp Suc.prems(2) guard] obtain e
      where s1: "schedule st1 = schedule st @ [e]"
        and e: "e_bill_type e = monthly_installment st"
        and m1: "monthly_installment st1 = monthly_installment st"
      by (auto simp add: row_def)
    from pp Suc.prems(2) guard have "rows_inv p st1" by (rule pay_period_rows_inv)
    from Suc.IH [OF rest this] obtain new
      where n1: "schedule st' = schedule st1 @ new" and n2: "length new \<le> k"
        and n3: "length new < k \<longrightarrow> stops p st'"
        and n4: "\<forall>x \<in> set new. e_bill_type x = monthly_installment st1"
        and n5: "monthly_installment st' = monthly_installment st1"
      by blast
    have "schedule st' = schedule st @ (e # new)" using n1 s1 by simp
    moreover have "length (e # new) \<le> Suc k" using n2 by simp
    moreover have "length (e # new) < Suc k \<longrightarrow> stops p st'" using n3 by simp
    moreover have "\<forall>x \<in> set (e # new). e_bill_type x = monthly_installment st"
      using n4 e m1 by simp
    moreover have "monthly_installment st' = monthly_installment st" using n5 m1 by simp
    ultimately show ?thesis by blast
  qed
qed

lemma step_up_result:
  "1 \<le> y \<Longrightarrow>
   step_up p y st =
     Inr (st\<lparr>monthly_installment := monthly_installment st *
            (if y \<le> int (length (annual_installment_increases p))
             then 1 + annual_installment_increases p ! nat (y - 1) / 100 else 1)\<rparr>)"
  by (simp add: step_up_def py_index_in_range)

lemma installment_after_Suc:
  "installment_after p (Suc j) =
     installment_after p j *
       (if j < length (annual_installment_increases p)
        then 1 + annual_installment_increases p ! j / 100 else 1)"
  by (simp add: installment_after_def take_Suc_conv_app_nth)

lemma installment_after_0: "installment_after p 0 = bill_type p"
  by (simp add: installment_after_def)


lemma year_loop_step:
  assumes "year_loop (y # ys) p st = Inr st'" and "1 \<le> y"
  obtains st1 where "month_loop 12 p st = Inr st1"
    and "year_loop ys p
           (st1\<lparr>monthly_installment := monthly_installment st1 *
              (if y \<le> int (length (annual_installment_increases p))
               then 1 + annual_installment_increases p ! nat (y - 1) / 100 else 1)\<rparr>) = Inr st'"
  using assms by (auto simp add: step_up_result split: sum.splits)

lemma year_loop_rows_inv:
  "year_loop ys p st = Inr st' \<Longrightarrow> \<forall>y \<in> set ys. 1 \<le> y \<Longrightarrow> rows_inv p st \<Longrightarrow> rows_inv p st'"
proof (induction ys arbitrary: st)
  case Nil
  then show ?case by simp
next
  case (Cons y ys)
  from Cons.prems(2) have y: "1 \<le> y" and ys: "\<forall>y \<in> set ys. 1 \<le> y" by simp_all
  from Cons.prems(1) y obtain st1 where m: "month_loop 12 p st = Inr st1"
    and rest: "year_loop ys p
           (st1\<lparr>monthly_installment := monthly_installment st1 *
              (if y \<le> int (length (annual_installment_increases p))
               then 1 + annual_installment_increases p ! nat (y - 1) / 100 else 1)\<rparr>) = Inr st'"
    by (rule year_loop_step)
  from m Cons.prems(3) have "rows_inv p st1" by (rule month_loop_rows_inv)
  then show ?case using Cons.IH [OF rest ys] by (simp add: rows_inv_installment)
qed

lemma year_step_inv:
  assumes m: "month_loop 12 p st = Inr st1" and r: "rows_inv p st" and yi: "year_inv p j st"
  shows "year_inv p (Suc j)
           (st1\<lparr>monthly_installment := monthly_installment st1 *
              (if int j + 1 \<le> int (length (annual_installment_increases p))
               then 1 + annual_installment_increases p ! nat (int j + 1 - 1) / 100 else 1)\<rparr>)"
proof -
  from month_loop_new_rows [OF m r] obtain new
    where n1: "schedule st1 = schedule st @ new" and n2: "length new \<le> 12"
      and n3: "length new < 12 \<longrightarrow> stops p st1"
      and n4: "\<forall>e \<in> set new. e_bill_type e = monthly_installment st"
      and n5: "monthly_installment st1 = monthly_installment st"
    by blast
  from yi have a: "length (schedule st) \<le> 12 * j"
    and b: "length (schedule st) < 12 * j \<longrightarrow> stops p st"
    and c: "monthly_installment st = installment_after p j"
    and d: "\<forall>k < length (schedule st). e_bill_type (schedule st ! k) = installment_after p (k div 12)"
    by (simp_all add: year_inv_def)
  have unchanged: "stops p st \<Longrightarrow> new = []"
  proof -
    assume "stops p st"
    then have "month_loop 12 p st = Inr st" by (rule month_loop_stops)
    with m have "st1 = st" by simp
    with n1 show "new = []" by simp
  qed
  have full: "new \<noteq> [] \<Longrightarrow> length (schedule st) = 12 * j"
    using a b unchanged by fastforce
  have a': "length (schedule st1) \<le> 12 * Suc j" using a n1 n2 by simp
  have b': "length (schedule st1) < 12 * Suc j \<longrightarrow> stops p st1"
  proof
    assume lt: "length (schedule st1) < 12 * Suc j"
    show "stops p st1"
    proof (cases "length new < 12")
      case True
      with n3 show ?thesis by simp
    next
      case False
      with n2 have l: "length new = 12" by simp
      then have "new \<noteq> []" by auto
      then have "length (schedule st) = 12 * j" by (rule full)
      with l n1 lt show ?thesis by simp
    qed
  qed
  have d': "\<forall>k < length (schedule st1). e_bill_type (schedule st1 ! k) = installment_after p (k div 12)"
  proof (intro allI impI)
    fix k assume k: "k < length (schedule st1)"
    show "e_bill_type (schedule st1 ! k) = installment_after p (k div 12)"
    proof (cases "k < length (schedule st)")
      case True
      with d n1 show ?thesis by (simp add: nth_append)
    next
      case False
      with k n1 have i: "k - length (schedule st) < length new" by simp
      then have ne: "new \<noteq> []" by auto
      then have l: "length (schedule st) = 12 * j" by (rule full)
      from i have "new ! (k - length (schedule st)) \<in> set new" by (rule nth_mem)
      with n4 c have "e_bill_type (new ! (k - length (schedule st))) = installment_after p j"
        by simp
      moreover from False i l n2 have "k div 12 = j" by simp
      ultimately show ?thesis using False n1 by (simp add: nth_append)
    qed
  qed
  have c': "monthly_installment st1 *
              (if int j + 1 \<le> int (length (annual_installment_increases p))
               then 1 + annual_installment_increases p ! nat (int j + 1 - 1) / 100 else 1)
            = installment_after p (Suc j)"
    using n5 c by (simp add: installment_after_Suc)
  show ?thesis
    unfolding year_inv_def using a' b' c' d' by (simp add: stops_def)
qed

lemma year_loop_year_inv:
  "year_loop [int j + 1..z] p st = Inr st' \<Longrightarrow> rows_inv p st \<Longrightarrow> year_inv p j st
     \<Longrightarrow> year_inv p (max j (nat z)) st'"
proof (induction "nat (z - int j)" arbitrary: j st)
  case 0
  then have "[int j + 1..z] = []" by simp
  with "0.prems"(1) have "st' = st" by simp
  moreover from "0.hyps" have "max j (nat z) = j" by simp
  ultimately show ?case using "0.prems"(3) by simp
next
  case (Suc n)
  from Suc.hyps(2) have le: "int j + 1 \<le> z" by simp
  then have ys: "[int j + 1..z] = (int j + 1) # [int (Suc j) + 1..z]"
    by (simp add: upto_rec1)
  from Suc.prems(1) [unfolded ys] obtain st1 where m: "month_loop 12 p st = Inr st1"
    and rest: "year_loop [int (Suc j) + 1..z] p
           (st1\<lparr>monthly_installment := monthly_installment st1 *
              (if int j + 1 \<le> int (length (annual_installment_increases p))
               then 1 + annual_installment_increases p ! nat (int j + 1 - 1) / 100 else 1)\<rparr>) = Inr st'"
    by (rule year_loop_step) simp
  from m Suc.prems(2) have "rows_inv p st1" by (rule month_loop_rows_inv)
  then have r: "rows_inv p
           (st1\<lparr>monthly_installment := monthly_installment st1 *
              (if int j + 1 \<le> int (length (annual_installment_increases p))
               then 1 + annual_installment_increases p ! nat (int j + 1 - 1) / 100 else 1)\<rparr>)"
    by (simp add: rows_inv_installment)
  from Suc.hyps(2) have n: "n = nat (z - int (Suc j))" by simp
  from Suc.hyps(1) [OF n rest r year_step_inv [OF m Suc.prems(2) Suc.prems(3)]]
  have "year_inv p (max (Suc j) (nat z)) st'" .
  moreover from le have "max (Suc j) (nat z) = max j (nat z)" by simp
  ultimately show ?case by simp
qed

lemma upto_from_1: "\<forall>y \<in> set [1..z]. 1 \<le> y"
  by simp

lemma initial_rows_inv: "rows_inv p (initial_state p d)"
  by (simp add: rows_inv_def initial_state_def balance_before_def)

lemma initial_year_inv: "year_inv p 0 (initial_state p d)"
  by (simp add: year_inv_def initial_state_def installment_after_0)

lemma regular_amortization_invs:
  assumes "regular_amortization p = Inr st"
  shows "rows_inv p st" and "year_inv p (nat (years p)) st"
proof -
  from assms obtain d where d: "add_days (start_date p) 30 = Inr d"
    and y: "year_loop [1..years p] p (initial_state p d) = Inr st"
    by (auto simp add: regular_amortization_def split: sum.splits)
  from y upto_from_1 initial_rows_inv show "rows_inv p st" by (rule year_loop_rows_inv)
  from y have "year_loop [int 0 + 1..years p] p (initial_state p d) = Inr st" by simp
  from year_loop_year_inv [OF this initial_rows_inv initial_year_inv]
  show "year_inv p (nat (years p)) st" by simp
qed

section \<open>The subscripts of the loops stay in range\<close>

text \<open>The loops can only fail through the date arithmetic: the subscript of
  \<open>monthly_interest_rates\<close> in the inner loop and the subscript of
  \<open>annual_installment_increases\<close> in the outer loop never raise \<open>IndexError\<close>.\<close>

lemma add_days_error: "add_days d k \<noteq> Inl IndexError"
  by (simp add: add_days_def)

lemma pay_period_reads_in_range:
  assumes "rows_inv p st" and "\<not> payment_number st > int (length (monthly_days p))"
  shows "pay_period p st \<noteq> Inl IndexError"
proof -
  from assms(1) have pn: "payment_number st = int (length (schedule st)) + 1"
    by (simp add: rows_inv_def)
  with assms(2) have "length (schedule st) < length (monthly_days p)" by simp
  with pn have "py_index (monthly_interest_rates p) (payment_number st - 1)
                  = Inr (period_rate p (length (schedule st)))"
    by (simp add: py_index_in_range length_monthly_interest_rates monthly_interest_rates_nth)
  moreover have "add_days (payment_date st) 30 \<noteq> Inl IndexError" by (rule add_days_error)
  ultimately show ?thesis
    by (cases "add_days (payment_date st) 30") (simp_all add: pay_period_def Let_def)
qed

lemma month_loop_reads_in_range:
  "rows_inv p st \<Longrightarrow> month_loop k p st \<noteq> Inl IndexError"
proof (induction k arbitrary: st)
  case 0
  then show ?case by simp
next
  case (Suc k)
  show ?case
  proof (cases "stops p st")
    case True
    then show ?thesis by (simp add: month_loop_stops del: month_loop.simps)
  next
    case False
    then have guard: "\<not> payment_number st > int (length (monthly_days p))"
      by (simp add: stops_def)
    show ?thesis
    proof (cases "pay_period p st")
      case (Inl e)
      with pay_period_reads_in_range [OF Suc.prems guard] have "e \<noteq> IndexError" by simp
      with Inl False show ?thesis by (simp add: stops_def)
    next
      case (Inr st1)
      then have "rows_inv p st1" using Suc.prems guard by (rule pay_period_rows_inv)
      then have "month_loop k p st1 \<noteq> Inl IndexError" by (rule Suc.IH)
      with Inr False show ?thesis by (simp add: stops_def)
    qed
  qed
qed

lemma year_loop_reads_in_range:
  "rows_inv p st \<Longrightarrow> \<forall>y \<in> set ys. 1 \<le> y \<Longrightarrow> year_loop ys p st \<noteq> Inl IndexError"
proof (induction ys arbitrary: st)
  case Nil
  then show ?case by simp
next
  case (Cons y ys)
  from Cons.prems(2) have y: "1 \<le> y" and ys: "\<forall>y \<in> set ys. 1 \<le> y" by simp_all
  show ?case
  proof (cases "month_loop 12 p st")
    case (Inl e)
    with month_loop_reads_in_range [OF Cons.prems(1), of 12] have "e \<noteq> IndexError" by simp
    with Inl show ?thesis by simp
  next
    case (Inr st1)
    then have "rows_inv p st1" using Cons.prems(1) by (rule month_loop_rows_inv)
    then have "year_loop ys p
        (st1\<lparr>monthly_installment := monthly_installment st1 *
           (if y \<le> int (length (annual_installment_increases p))
            then 1 + annual_installment_increases p ! nat (y - 1) / 100 else 1)\<rparr>)
        \<noteq> Inl IndexError"
      using ys by (intro Cons.IH) (simp_all add: rows_inv_installment)
    with Inr y show ?thesis by (simp add: step_up_result)
  qed
qed

lemma regular_amortization_reads_in_range: "regular_amortization p \<noteq> Inl IndexError"
proof (cases "add_days (start_date p) 30")
  case (Inl e)
  with add_days_error [of "start_date p" 30] have "e \<noteq> IndexError" by simp
  with Inl show ?thesis by (simp add: regular_amortization_def)
next
  case (Inr d)
  have "year_loop [1..years p] p (initial_state p d) \<noteq> Inl IndexError"
    using initial_rows_inv upto_from_1 by (rule year_loop_reads_in_range)
  with Inr show ?thesis by (simp add: regular_amortization_def)
qed

section \<open>The result of the function\<close>

lemma regular_rows_then_balloon:
  assumes "regular_amortization p = Inr st"
  shows "calculate_stepped_amortization_schedule p =
           (if remaining_balance st > 0
            then (if length (schedule st) < length (monthly_days p)
                  then Inr (schedule st
                         @ [row p st (remaining_balance st * period_rate p (length (schedule st))) 0])
                  else Inl IndexError)
            else Inr (schedule st))"
proof -
  from assms have "rows_inv p st" by (rule regular_amortization_invs)
  then have pn: "payment_number st - 1 = int (length (schedule st))"
    and le: "length (schedule st) \<le> length (monthly_days p)"
    by (simp_all add: rows_inv_def)
  show ?thesis
  proof (cases "length (schedule st) < length (monthly_days p)")
    case True
    then have "py_index (monthly_interest_rates p) (payment_number st - 1)
               = Inr (period_rate p (length (schedule st)))"
      using pn
      by (simp add: py_index_in_range length_monthly_interest_rates monthly_interest_rates_nth)
    with True assms show ?thesis
      by (simp add: calculate_stepped_amortization_schedule_def balloon_step_def)
  next
    case False
    with le have "length (schedule st) = length (monthly_days p)" by simp
    then have "py_index (monthly_interest_rates p) (payment_number st - 1) = Inl IndexError"
      using pn py_index_at_length [of "monthly_interest_rates p"]
      by (simp add: length_monthly_interest_rates)
    with False assms show ?thesis
      by (simp add: calculate_stepped_amortization_schedule_def balloon_step_def)
  qed
qed

lemma year_loop_stops:
  "stops p st \<Longrightarrow> \<forall>y \<in> set ys. 1 \<le> y
     \<Longrightarrow> \<exists>m. year_loop ys p st = Inr (st\<lparr>monthly_installment := m\<rparr>)"
proof (induction ys arbitrary: st)
  case Nil
  have "st = st\<lparr>monthly_installment := monthly_installment st\<rparr>" by simp
  then have "year_loop [] p st = Inr (st\<lparr>monthly_installment := monthly_installment st\<rparr>)"
    by simp
  then show ?case by blast
next
  case (Cons y ys)
  from Cons.prems(2) have y: "1 \<le> y" and ys: "\<forall>y \<in> set ys. 1 \<le> y" by simp_all
  let ?m = "monthly_installment st *
              (if y \<le> int (length (annual_installment_increases p))
               then 1 + annual_installment_increases p ! nat (y - 1) / 100 else 1)"
  from Cons.prems(1) have "stops p (st\<lparr>monthly_installment := ?m\<rparr>)"
    by (simp add: stops_installment)
  from Cons.IH [OF this ys] obtain m
    where "year_loop ys p (st\<lparr>monthly_installment := ?m\<rparr>) = Inr (st\<lparr>monthly_installment := m\<rparr>)"
    by auto
  moreover from Cons.prems(1) have "month_loop 12 p st = Inr st" by (rule month_loop_stops)
  ultimately have "year_loop (y # ys) p st = Inr (st\<lparr>monthly_installment := m\<rparr>)"
    using y by (simp add: step_up_result)
  then show ?case by blast
qed

lemma no_regular_rows:
  assumes "principal p \<le> balloon_payment p" and "add_days (start_date p) 30 = Inr d"
  shows "regular_amortization p =
           Inr ((initial_state p d)\<lparr>monthly_installment := installment_after p (nat (years p))\<rparr>)"
proof -
  from assms(1) have "stops p (initial_state p d)"
    by (simp add: stops_def initial_state_def)
  from year_loop_stops [OF this upto_from_1] obtain m
    where m: "year_loop [1..years p] p (initial_state p d)
                = Inr ((initial_state p d)\<lparr>monthly_installment := m\<rparr>)"
    by blast
  with assms(2) have r: "regular_amortization p = Inr ((initial_state p d)\<lparr>monthly_installment := m\<rparr>)"
    by (simp add: regular_amortization_def)
  from regular_amortization_invs(2) [OF r] have "m = installment_after p (nat (years p))"
    by (simp add: year_inv_def)
  with r show ?thesis by simp
qed

section \<open>Claims\<close>

text \<open>
  The \<open>schedule\<close> of the state returned by \<open>regular_amortization\<close> holds the regular rows;
  by \<open>regular_rows_then_balloon\<close> the function returns these rows, followed by the balloon
  row when the balance left is positive. The keys of a row correspond to the fields of the
  specification's schedule entry: \<open>'date'\<close> is the payment date, \<open>'days'\<close> the period days,
  \<open>'interest'\<close> the interest accrued, \<open>'principal'\<close> the principal repaid, \<open>'bill type'\<close>
  the installment in effect and \<open>'balance'\<close> the ending balance.
\<close>

subsection \<open>C1: the principal column\<close>

text \<open>
  Claim C1 says that the principal repaid recorded in the rows sums to the loan's principal.
  The function computes \<open>principal_payment\<close> but stores the constant 0 under \<open>'principal'\<close>
  in every row. On a valid loan of 1000 that is repaid by two regular rows and a balloon
  row, the recorded values sum to 0.
\<close>

theorem principal_column_sums_to_zero:
  "valid_loan loan_three_periods \<and> principal loan_three_periods = 1000 \<and>
   (case calculate_stepped_amortization_schedule loan_three_periods of
      Inl _ \<Rightarrow> False
    | Inr rows \<Rightarrow> length rows = 3 \<and> sum_list (map e_principal rows) = 0)"
  by code_simp

subsection \<open>C2: the rate of the balloon row\<close>

text \<open>
  Claim C2 as stated fails. With day counts 30 and 60, one regular row leaves a balance of
  900; the interest of the balloon row is 54, the balance times the rate of the 60-day
  count that was not consumed yet, and not 27, the balance times the rate of the 30-day
  count consumed last. With five day counts for a term of eight years and a balance of 500
  left after them, no balloon row is returned: the subscript of the balloon step is out of
  range and the function raises \<open>IndexError\<close>.
\<close>

theorem balloon_rate_counterexample:
  "valid_loan loan_30_60 \<and>
   (case regular_amortization loan_30_60 of
      Inl _ \<Rightarrow> False
    | Inr st \<Rightarrow>
        length (schedule st) = 1 \<and> remaining_balance st = 900 \<and>
        (case calculate_stepped_amortization_schedule loan_30_60 of
           Inl _ \<Rightarrow> False
         | Inr rows \<Rightarrow>
             length rows = 2 \<and> e_interest (rows ! 1) = 54 \<and>
             e_interest (rows ! 1) \<noteq> remaining_balance st * period_rate loan_30_60 0)) \<and>
   valid_loan loan_five_counts \<and>
   calculate_stepped_amortization_schedule loan_five_counts = Inl IndexError"
  by code_simp

text \<open>
  Claim C2, amended: when the loops end with a positive balance and a day count is still
  unconsumed, the function returns the regular rows followed by exactly one balloon row,
  whose interest is the balance times the period rate of the first unconsumed day count
  (the one whose index is the number of regular rows) and whose balance is 0.
\<close>

theorem balloon_uses_next_day_count:
  assumes "regular_amortization p = Inr st" and "0 < remaining_balance st"
    and "length (schedule st) < length (monthly_days p)"
  shows "calculate_stepped_amortization_schedule p =
           Inr (schedule st
                  @ [row p st (remaining_balance st * period_rate p (length (schedule st))) 0])"
  using assms by (simp add: regular_rows_then_balloon)

theorem balloon_uses_next_day_count_witness:
  "case regular_amortization loan_31_28_31 of
     Inl _ \<Rightarrow> False
   | Inr st \<Rightarrow>
       0 < remaining_balance st \<and> length (schedule st) = 2 \<and>
       length (schedule st) < length (monthly_days loan_31_28_31) \<and>
       calculate_stepped_amortization_schedule loan_31_28_31 =
         Inr (schedule st @ [row loan_31_28_31 st (remaining_balance st * period_rate loan_31_28_31 2) 0])"
proof -
  have "case regular_amortization loan_31_28_31 of
          Inl _ \<Rightarrow> False
        | Inr st \<Rightarrow> 0 < remaining_balance st \<and> length (schedule st) = 2"
    by code_simp
  then obtain st where st: "regular_amortization loan_31_28_31 = Inr st"
    and b: "0 < remaining_balance st" and n: "length (schedule st) = 2"
    by (cases "regular_amortization loan_31_28_31") auto
  have l: "length (schedule st) < length (monthly_days loan_31_28_31)"
    using n by (simp add: loan_31_28_31_def)
  from balloon_uses_next_day_count [OF st b l] st b n l show ?thesis by simp
qed

subsection \<open>C3: exhausted day counts\<close>

text \<open>
  Claim C3 says that the function returns a schedule for every valid loan and that every
  subscript is in range. The inner loop tests \<open>payment_number > len(monthly_days)\<close> before
  it reads \<open>monthly_interest_rates[payment_number - 1]\<close>; the balloon step reads the same
  subscript without the test. On a valid loan with a single day count and a balance that
  stays positive, the function raises \<open>IndexError\<close>.
\<close>

theorem exhausted_day_counts_raise_IndexError:
  "valid_loan loan_one_count \<and>
   calculate_stepped_amortization_schedule loan_one_count = Inl IndexError"
  by code_simp

subsection \<open>C4: loans that violate a precondition\<close>

text \<open>
  Claim C4 as stated fails: the function tests none of the preconditions and has no error
  of its own. A loan with principal 0 is not valid, and the function returns the empty
  schedule for it.
\<close>

theorem no_validation_counterexample:
  "\<not> valid_loan loan_zero_principal \<and> principal loan_zero_principal = 0 \<and>
   calculate_stepped_amortization_schedule loan_zero_principal = Inr []"
  by code_simp

text \<open>
  Claim C4, amended: no precondition is tested. For a principal that is not positive and
  a balloon threshold that is not negative, the function returns the empty schedule and
  raises nothing, provided the start date plus 30 days is a date the library can represent.
\<close>

theorem nonpositive_principal_empty_schedule:
  assumes "principal p \<le> 0" and "0 \<le> balloon_payment p"
    and "add_days (start_date p) 30 = Inr d"
  shows "calculate_stepped_amortization_schedule p = Inr []"
proof -
  from assms(1,2) have "principal p \<le> balloon_payment p" by simp
  from no_regular_rows [OF this assms(3)] assms(1) show ?thesis
    by (simp add: regular_rows_then_balloon initial_state_def)
qed

theorem nonpositive_principal_empty_schedule_witness:
  "principal loan_negative_principal \<le> 0 \<and> 0 \<le> balloon_payment loan_negative_principal \<and>
   add_days (start_date loan_negative_principal) 30
     = Inr \<lparr>dt_year = 2026, dt_month = 7, dt_day = 15\<rparr> \<and>
   calculate_stepped_amortization_schedule loan_negative_principal = Inr []"
proof -
  have a: "principal loan_negative_principal \<le> 0" by code_simp
  have b: "0 \<le> balloon_payment loan_negative_principal" by code_simp
  have c: "add_days (start_date loan_negative_principal) 30
             = Inr \<lparr>dt_year = 2026, dt_month = 7, dt_day = 15\<rparr>" by code_simp
  from nonpositive_principal_empty_schedule [OF a b c] a b c show ?thesis by simp
qed

subsection \<open>C5: the days field\<close>

text \<open>
  Claim C5 as stated fails: the value under \<open>'days'\<close> is computed from the payment date
  alone. For a loan starting on 2026-06-15 whose first day count is 30, the first regular
  row is dated 2026-07-15 and records 15.
\<close>

theorem days_field_counterexample:
  "valid_loan loan_days_example \<and> monthly_days loan_days_example ! 0 = 30 \<and>
   (case regular_amortization loan_days_example of
      Inl _ \<Rightarrow> False
    | Inr st \<Rightarrow> length (schedule st) = 1 \<and> e_days (schedule st ! 0) = 15 \<and>
        (case calculate_stepped_amortization_schedule loan_days_example of
           Inl _ \<Rightarrow> False
         | Inr rows \<Rightarrow> length rows = 2 \<and> rows ! 0 = schedule st ! 0))"
  by code_simp

text \<open>
  Claim C5, amended: in every row of the returned schedule, regular or balloon, the value
  under \<open>'days'\<close> is the day of the month of the row's payment date.
\<close>

theorem days_field_is_day_of_month:
  assumes "calculate_stepped_amortization_schedule p = Inr rows"
  shows "\<forall>e \<in> set rows. e_days e = dt_day (e_date e)"
proof -
  from assms obtain st where st: "regular_amortization p = Inr st"
    by (auto simp add: calculate_stepped_amortization_schedule_def split: sum.splits)
  then have "rows_inv p st" by (rule regular_amortization_invs)
  then have old: "\<forall>e \<in> set (schedule st). e_days e = dt_day (e_date e)"
    by (simp add: rows_inv_def)
  have new: "e_days (row p st i b) = dt_day (e_date (row p st i b))" for i b
    by (simp add: row_def days_since_month_start_eq)
  from assms have "rows = schedule st \<or>
      rows = schedule st @ [row p st (remaining_balance st * period_rate p (length (schedule st))) 0]"
    unfolding regular_rows_then_balloon [OF st] by (auto split: if_splits)
  with old new show ?thesis by auto
qed

theorem days_field_is_day_of_month_witness:
  "case calculate_stepped_amortization_schedule loan_three_periods of
     Inl _ \<Rightarrow> False
   | Inr rows \<Rightarrow>
       length rows = 3 \<and> e_date (rows ! 1) = \<lparr>dt_year = 2026, dt_month = 8, dt_day = 14\<rparr> \<and>
       e_days (rows ! 1) = 14"
proof -
  have "case calculate_stepped_amortization_schedule loan_three_periods of
          Inl _ \<Rightarrow> False
        | Inr rows \<Rightarrow>
            length rows = 3 \<and> e_date (rows ! 1) = \<lparr>dt_year = 2026, dt_month = 8, dt_day = 14\<rparr>"
    by code_simp
  then obtain rows where r: "calculate_stepped_amortization_schedule loan_three_periods = Inr rows"
    and n: "length rows = 3"
    and d: "e_date (rows ! 1) = \<lparr>dt_year = 2026, dt_month = 8, dt_day = 14\<rparr>"
    by (cases "calculate_stepped_amortization_schedule loan_three_periods") auto
  from n have "rows ! 1 \<in> set rows" by simp
  with days_field_is_day_of_month [OF r] have "e_days (rows ! 1) = dt_day (e_date (rows ! 1))"
    by blast
  with r n d show ?thesis by simp
qed

subsection \<open>C6: the balloon row\<close>

text \<open>
  Claim C6 says that the balloon row records a principal repaid equal to the balance
  outstanding before it, and an ending balance of 0. The balloon row stores the constant 0
  under \<open>'principal'\<close>, as the regular rows do: on a valid loan whose regular row leaves a
  balance of 900, the balloon row records principal 0 and balance 0.
\<close>

theorem balloon_row_principal_zero:
  "valid_loan loan_two_periods \<and>
   (case regular_amortization loan_two_periods of
      Inl _ \<Rightarrow> False
    | Inr st \<Rightarrow>
        length (schedule st) = 1 \<and> remaining_balance st = 900 \<and>
        (case calculate_stepped_amortization_schedule loan_two_periods of
           Inl _ \<Rightarrow> False
         | Inr rows \<Rightarrow>
             length rows = 2 \<and> e_principal (rows ! 1) = 0 \<and> e_balance (rows ! 1) = 0))"
  by code_simp

subsection \<open>C7: the ending balances\<close>

text \<open>
  Claim C7 as stated fails: when the interest of a period exceeds the installment, the
  principal payment is negative and the balance grows. On a valid loan of 4 with
  installment 5, rate 100 and day counts 365, 730 and 1, the function returns three
  regular rows (and no balloon row) whose ending balances are 3, 4 and 0.
\<close>

theorem balance_increase_counterexample:
  "valid_loan loan_growing \<and>
   (case regular_amortization loan_growing of
      Inl _ \<Rightarrow> False
    | Inr st \<Rightarrow>
        map e_balance (schedule st) = [3, 4, 0] \<and>
        calculate_stepped_amortization_schedule loan_growing = Inr (schedule st))"
  by code_simp

text \<open>
  Claim C7, amended: for a principal that is not negative, the ending balance of every
  regular row is non-negative, and it does not exceed the balance before the row whenever
  the interest of the row does not exceed the installment in effect.
\<close>

theorem ending_balance_nonnegative:
  assumes "regular_amortization p = Inr st" and "0 \<le> principal p"
  shows "\<forall>k < length (schedule st).
           0 \<le> e_balance (schedule st ! k) \<and>
           (e_interest (schedule st ! k) \<le> e_bill_type (schedule st ! k)
              \<longrightarrow> e_balance (schedule st ! k) \<le> balance_before p (schedule st) k)"
proof (intro allI impI)
  fix k assume k: "k < length (schedule st)"
  from assms(1) have "rows_inv p st" by (rule regular_amortization_invs)
  then have ok: "\<forall>i < length (schedule st). row_ok p (schedule st) i"
    by (simp add: rows_inv_def)
  have "0 \<le> balance_before p (schedule st) k"
  proof (cases k)
    case 0
    with assms(2) show ?thesis by (simp add: balance_before_def)
  next
    case (Suc i)
    with k have "i < length (schedule st)" by simp
    with ok have "row_ok p (schedule st) i" by blast
    with Suc show ?thesis by (simp add: balance_before_def row_ok_def)
  qed
  moreover from ok k have "row_ok p (schedule st) k" by blast
  ultimately show "0 \<le> e_balance (schedule st ! k) \<and>
           (e_interest (schedule st ! k) \<le> e_bill_type (schedule st ! k)
              \<longrightarrow> e_balance (schedule st ! k) \<le> balance_before p (schedule st) k)"
    by (simp add: row_ok_def)
qed

theorem ending_balance_nonnegative_witness:
  "case regular_amortization loan_shrinking of
     Inl _ \<Rightarrow> False
   | Inr st \<Rightarrow>
       0 \<le> principal loan_shrinking \<and> length (schedule st) = 3 \<and>
       e_interest (schedule st ! 1) = 27 \<and> e_bill_type (schedule st ! 1) = 130 \<and>
       0 \<le> e_balance (schedule st ! 1) \<and>
       e_balance (schedule st ! 1) \<le> e_balance (schedule st ! 0)"
proof -
  have "case regular_amortization loan_shrinking of
          Inl _ \<Rightarrow> False
        | Inr st \<Rightarrow> length (schedule st) = 3 \<and>
            e_interest (schedule st ! 1) = 27 \<and> e_bill_type (schedule st ! 1) = 130"
    by code_simp
  then obtain st where st: "regular_amortization loan_shrinking = Inr st"
    and n: "length (schedule st) = 3"
    and i: "e_interest (schedule st ! 1) = 27" and b: "e_bill_type (schedule st ! 1) = 130"
    by (cases "regular_amortization loan_shrinking") auto
  have p: "0 \<le> principal loan_shrinking" by code_simp
  from n have "1 < length (schedule st)" by simp
  with ending_balance_nonnegative [OF st p]
  have "0 \<le> e_balance (schedule st ! 1) \<and>
        (e_interest (schedule st ! 1) \<le> e_bill_type (schedule st ! 1)
           \<longrightarrow> e_balance (schedule st ! 1) \<le> balance_before loan_shrinking (schedule st) 1)"
    by blast
  with st n i b p show ?thesis by (simp add: balance_before_def)
qed

subsection \<open>C8: the number and order of the regular rows\<close>

text \<open>
  Claim C8: for a term that is not negative, the loops never read past the end of the day
  counts (they never raise \<open>IndexError\<close>; the only failure left to them is a date out of
  the library's range), the number of regular rows is at most \<open>years * 12\<close> and at most the
  number of day counts, and the regular row with 0-based index \<open>k\<close> uses the day count
  with index \<open>k\<close>, which exists: its interest is the balance before it times
  \<open>period_rate p k\<close>, the annual rate over 100 times \<open>monthly_days[k] / 365\<close>.
\<close>

theorem regular_rows_bounded_in_order:
  assumes "0 \<le> years p"
  shows "regular_amortization p \<noteq> Inl IndexError \<and>
         (\<forall>st. regular_amortization p = Inr st \<longrightarrow>
            int (length (schedule st)) \<le> min (years p * 12) (int (length (monthly_days p))) \<and>
            (\<forall>k < length (schedule st).
               k < length (monthly_days p) \<and>
               e_interest (schedule st ! k) = balance_before p (schedule st) k * period_rate p k))"
proof (intro conjI allI impI)
  show "regular_amortization p \<noteq> Inl IndexError" by (rule regular_amortization_reads_in_range)
next
  fix st assume st: "regular_amortization p = Inr st"
  then have r: "rows_inv p st" and y: "year_inv p (nat (years p)) st"
    by (rule regular_amortization_invs)+
  from y have "length (schedule st) \<le> 12 * nat (years p)" by (simp add: year_inv_def)
  with assms have a: "int (length (schedule st)) \<le> years p * 12" by linarith
  from r have b: "length (schedule st) \<le> length (monthly_days p)"
    and c: "\<forall>k < length (schedule st). row_ok p (schedule st) k"
    by (simp_all add: rows_inv_def)
  from a b show "int (length (schedule st)) \<le> min (years p * 12) (int (length (monthly_days p)))"
    by simp
  fix k assume k: "k < length (schedule st)"
  with b show "k < length (monthly_days p)" by simp
  from c k show "e_interest (schedule st ! k) = balance_before p (schedule st) k * period_rate p k"
    by (simp add: row_ok_def)
qed

theorem regular_rows_bounded_in_order_witness:
  "0 \<le> years loan_uneven_counts \<and>
   regular_amortization loan_uneven_counts \<noteq> Inl IndexError \<and>
   (case regular_amortization loan_uneven_counts of
      Inl _ \<Rightarrow> False
    | Inr st \<Rightarrow>
        length (schedule st) = 4 \<and>
        int (length (schedule st))
          \<le> min (years loan_uneven_counts * 12) (int (length (monthly_days loan_uneven_counts))) \<and>
        e_balance (schedule st ! 0) = 4431 \<and>
        monthly_days loan_uneven_counts ! 1 = 28 \<and>
        period_rate loan_uneven_counts 1 = 7 / 1250 \<and>
        e_interest (schedule st ! 1) = 4431 * (7 / 1250))"
proof -
  have y: "0 \<le> years loan_uneven_counts" by code_simp
  have "case regular_amortization loan_uneven_counts of
          Inl _ \<Rightarrow> False
        | Inr st \<Rightarrow> length (schedule st) = 4 \<and> e_balance (schedule st ! 0) = 4431"
    by code_simp
  then obtain st where st: "regular_amortization loan_uneven_counts = Inr st"
    and n: "length (schedule st) = 4" and b: "e_balance (schedule st ! 0) = 4431"
    by (cases "regular_amortization loan_uneven_counts") auto
  have d: "monthly_days loan_uneven_counts ! 1 = 28"
    and r: "period_rate loan_uneven_counts 1 = 7 / 1250"
    by (simp_all add: loan_uneven_counts_def period_rate_def)
  from regular_rows_bounded_in_order [OF y] st
  have e: "regular_amortization loan_uneven_counts \<noteq> Inl IndexError"
    and l: "int (length (schedule st))
          \<le> min (years loan_uneven_counts * 12) (int (length (monthly_days loan_uneven_counts)))"
    and i: "\<forall>k < length (schedule st).
              e_interest (schedule st ! k)
                = balance_before loan_uneven_counts (schedule st) k * period_rate loan_uneven_counts k"
    by blast+
  from n have "1 < length (schedule st)" by simp
  with i have "e_interest (schedule st ! 1)
                 = balance_before loan_uneven_counts (schedule st) 1 * period_rate loan_uneven_counts 1"
    by blast
  then have "e_interest (schedule st ! 1) = 4431 * (7 / 1250)"
    using b r by (simp add: balance_before_def)
  with y e st n l b d r show ?thesis by simp
qed

subsection \<open>C9: the annual increases\<close>

text \<open>
  One iteration of the inner loop when the iterations left are given as a numeral.
\<close>

lemma month_loop_numeral:
  "month_loop (numeral n) p st =
     (if payment_number st > int (length (monthly_days p)) then Inr st
      else if remaining_balance st \<le> balloon_payment p then Inr st
      else (case pay_period p st of
              Inl e \<Rightarrow> Inl e
            | Inr st' \<Rightarrow> month_loop (pred_numeral n) p st'))"
  by (simp add: numeral_eq_Suc)

text \<open>
  Claim C9: when the loops end, the installment is the initial one with one increase
  applied for each year of the term that has an entry in \<open>annual_installment_increases\<close>,
  however many rows each year produced; the regular row with 0-based index \<open>k\<close> belongs to
  year \<open>k div 12 + 1\<close> and records the initial installment with the first \<open>k div 12\<close>
  increases compounded. With initial installment 1000 and increases \<open>[5]\<close>, every regular
  row from the second year on records 1050.
\<close>

theorem step_up_once_per_year:
  assumes "regular_amortization p = Inr st"
  shows "monthly_installment st = installment_after p (nat (years p)) \<and>
         (\<forall>k < length (schedule st).
            e_bill_type (schedule st ! k) = installment_after p (k div 12)) \<and>
         (bill_type p = 1000 \<and> annual_installment_increases p = [5]
            \<longrightarrow> (\<forall>k < length (schedule st). 12 \<le> k \<longrightarrow> e_bill_type (schedule st ! k) = 1050))"
proof -
  from assms have y: "year_inv p (nat (years p)) st" by (rule regular_amortization_invs)
  then have a: "monthly_installment st = installment_after p (nat (years p))"
    and b: "\<forall>k < length (schedule st).
              e_bill_type (schedule st ! k) = installment_after p (k div 12)"
    by (simp_all add: year_inv_def)
  have c: "installment_after p (k div 12) = 1050"
    if "bill_type p = 1000" and "annual_installment_increases p = [5]" and "12 \<le> k" for k
  proof -
    from that(3) have "1 \<le> k div 12" by simp
    then obtain j where "k div 12 = Suc j" by (cases "k div 12") auto
    with that(1,2) show ?thesis by (simp add: installment_after_def)
  qed
  from a b c show ?thesis by simp
qed

theorem step_up_once_per_year_witness:
  "case regular_amortization loan_two_years of
     Inl _ \<Rightarrow> False
   | Inr st \<Rightarrow>
       bill_type loan_two_years = 1000 \<and> annual_installment_increases loan_two_years = [5] \<and>
       length (schedule st) = 13 \<and> monthly_installment st = 1050 \<and>
       e_bill_type (schedule st ! 11) = 1000 \<and> e_bill_type (schedule st ! 12) = 1050"
proof -
  have dates:
    "add_days \<lparr>dt_year = 2026, dt_month = 6, dt_day = 15\<rparr> 30
       = Inr \<lparr>dt_year = 2026, dt_month = 7, dt_day = 15\<rparr>"
    "add_days \<lparr>dt_year = 2026, dt_month = 7, dt_day = 15\<rparr> 30
       = Inr \<lparr>dt_year = 2026, dt_month = 8, dt_day = 14\<rparr>"
    "add_days \<lparr>dt_year = 2026, dt_month = 8, dt_day = 14\<rparr> 30
       = Inr \<lparr>dt_year = 2026, dt_month = 9, dt_day = 13\<rparr>"
    "add_days \<lparr>dt_year = 2026, dt_month = 9, dt_day = 13\<rparr> 30
       = Inr \<lparr>dt_year = 2026, dt_month = 10, dt_day = 13\<rparr>"
    "add_days \<lparr>dt_year = 2026, dt_month = 10, dt_day = 13\<rparr> 30
       = Inr \<lparr>dt_year = 2026, dt_month = 11, dt_day = 12\<rparr>"
    "add_days \<lparr>dt_year = 2026, dt_month = 11, dt_day = 12\<rparr> 30
       = Inr \<lparr>dt_year = 2026, dt_month = 12, dt_day = 12\<rparr>"
    "add_days \<lparr>dt_year = 2026, dt_month = 12, dt_day = 12\<rparr> 30
       = Inr \<lparr>dt_year = 2027, dt_month = 1, dt_day = 11\<rparr>"
    "add_days \<lparr>dt_year = 2027, dt_month = 1, dt_day = 11\<rparr> 30
       = Inr \<lparr>dt_year = 2027, dt_month = 2, dt_day = 10\<rparr>"
    "add_days \<lparr>dt_year = 2027, dt_month = 2, dt_day = 10\<rparr> 30
       = Inr \<lparr>dt_year = 2027, dt_month = 3, dt_day = 12\<rparr>"
    "add_days \<lparr>dt_year = 2027, dt_month = 3, dt_day = 12\<rparr> 30
       = Inr \<lparr>dt_year = 2027, dt_month = 4, dt_day = 11\<rparr>"
    "add_days \<lparr>dt_year = 2027, dt_month = 4, dt_day = 11\<rparr> 30
       = Inr \<lparr>dt_year = 2027, dt_month = 5, dt_day = 11\<rparr>"
    "add_days \<lparr>dt_year = 2027, dt_month = 5, dt_day = 11\<rparr> 30
       = Inr \<lparr>dt_year = 2027, dt_month = 6, dt_day = 10\<rparr>"
    "add_days \<lparr>dt_year = 2027, dt_month = 6, dt_day = 10\<rparr> 30
       = Inr \<lparr>dt_year = 2027, dt_month = 7, dt_day = 10\<rparr>"
    "add_days \<lparr>dt_year = 2027, dt_month = 7, dt_day = 10\<rparr> 30
       = Inr \<lparr>dt_year = 2027, dt_month = 8, dt_day = 9\<rparr>"
    by code_simp+
  have two_years: "[1..2] = [1, 2::int]" by code_simp
  have "case regular_amortization loan_two_years of
          Inl _ \<Rightarrow> False | Inr st \<Rightarrow> length (schedule st) = 13"
    by (simp add: regular_amortization_def loan_two_years_def june_15_def dates two_years
        initial_state_def month_loop_numeral pay_period_def py_index_def
        monthly_interest_rates_def row_def days_since_month_start_eq step_up_def Let_def)
  then obtain st where st: "regular_amortization loan_two_years = Inr st"
    and n: "length (schedule st) = 13"
    by (cases "regular_amortization loan_two_years") auto
  have b: "bill_type loan_two_years = 1000"
    and i: "annual_installment_increases loan_two_years = [5]"
    and y: "nat (years loan_two_years) = 2"
    by (simp_all add: loan_two_years_def)
  have after: "installment_after loan_two_years 2 = 1050" "installment_after loan_two_years 0 = 1000"
    using b i by (simp_all add: installment_after_def)
  from n have k: "11 < length (schedule st)" "12 < length (schedule st)" by simp_all
  from step_up_once_per_year [OF st]
  have m: "monthly_installment st = installment_after loan_two_years (nat (years loan_two_years))"
    and r: "\<forall>k < length (schedule st).
              e_bill_type (schedule st ! k) = installment_after loan_two_years (k div 12)"
    and s: "bill_type loan_two_years = 1000 \<and> annual_installment_increases loan_two_years = [5]
              \<longrightarrow> (\<forall>k < length (schedule st). 12 \<le> k
                     \<longrightarrow> e_bill_type (schedule st ! k) = 1050)"
    by blast+
  from m y after have "monthly_installment st = 1050" by simp
  moreover from r k(1) have "e_bill_type (schedule st ! 11) = installment_after loan_two_years (11 div 12)"
    by blast
  then have "e_bill_type (schedule st ! 11) = 1000" using after by simp
  moreover from s b i k(2) have "e_bill_type (schedule st ! 12) = 1050" by simp
  ultimately show ?thesis using st n b i by simp
qed

subsection \<open>C10: the installment of a balloon row without regular rows\<close>

text \<open>
  Claim C10: when the principal is positive and at most the balloon threshold, the
  function returns the balloon row alone, and the installment it records is the initial
  installment with every increase of the term applied, not the initial installment.
\<close>

theorem balloon_installment_after_all_years:
  assumes "principal p \<le> balloon_payment p" and "0 < principal p"
    and "monthly_days p \<noteq> []" and "add_days (start_date p) 30 = Inr d"
  shows "\<exists>b. calculate_stepped_amortization_schedule p = Inr [b] \<and>
             e_bill_type b = installment_after p (nat (years p)) \<and>
             e_interest b = principal p * period_rate p 0 \<and> e_balance b = 0"
proof -
  from assms(3) have "0 < length (monthly_days p)" by simp
  with no_regular_rows [OF assms(1,4)] assms(2) show ?thesis
    by (simp add: regular_rows_then_balloon initial_state_def row_def)
qed

theorem balloon_installment_after_all_years_witness:
  "principal loan_high_threshold \<le> balloon_payment loan_high_threshold \<and>
   0 < principal loan_high_threshold \<and> monthly_days loan_high_threshold \<noteq> [] \<and>
   add_days (start_date loan_high_threshold) 30
     = Inr \<lparr>dt_year = 2026, dt_month = 7, dt_day = 15\<rparr> \<and>
   bill_type loan_high_threshold = 1000 \<and>
   (case calculate_stepped_amortization_schedule loan_high_threshold of
      Inl _ \<Rightarrow> False
    | Inr rows \<Rightarrow> length rows = 1 \<and> e_bill_type (rows ! 0) = 1155)"
proof -
  have a: "principal loan_high_threshold \<le> balloon_payment loan_high_threshold" by code_simp
  have b: "0 < principal loan_high_threshold" by code_simp
  have c: "monthly_days loan_high_threshold \<noteq> []" by code_simp
  have d: "add_days (start_date loan_high_threshold) 30
             = Inr \<lparr>dt_year = 2026, dt_month = 7, dt_day = 15\<rparr>" by code_simp
  have e: "bill_type loan_high_threshold = 1000" by code_simp
  have f: "installment_after loan_high_threshold (nat (years loan_high_threshold)) = 1155"
    by code_simp
  from balloon_installment_after_all_years [OF a b c d] obtain r
    where "calculate_stepped_amortization_schedule loan_high_threshold = Inr [r]"
      and "e_bill_type r = installment_after loan_high_threshold (nat (years loan_high_threshold))"
    by blast
  with a b c d e f show ?thesis by simp
qed

end
